theory Spec2Isabelle
  imports Main "HOL-Library.Word"
begin

unbundle bit_operations_syntax

section \<open>Errors\<close>

text \<open>
  The exceptions that the modelled functions can raise. The first five are Python's
  own; the others are classes of \<^verbatim>\<open>acnh/errors.py\<close> and \<^verbatim>\<open>acnh/designs.py\<close>,
  with the attributes their constructors store.
\<close>

datatype error =
    KeyError
  | ValueError
  | OverflowError
  | ZeroDivisionError
  | AttributeError
  | InvalidDesignCodeError
  | InvalidLayerIndexError nat
  | InvalidLayerSizeError string int int
  | TiledImageTooBigError int

section \<open>Design codes (\<^verbatim>\<open>acnh/designs.py\<close>)\<close>

definition alphabet :: string where
  "alphabet = ''0123456789BCDFGHJKLMNPQRSTVWXY''"

text \<open>
  \<^verbatim>\<open>{c: i for i, c in enumerate(alphabet)}\<close>: the dictionary is filled from left to
  right, a later entry replacing an earlier one with the same key.
\<close>

fun enumerate_dict :: "int \<Rightarrow> 'a list \<Rightarrow> ('a \<rightharpoonup> int) \<Rightarrow> ('a \<rightharpoonup> int)" where
  "enumerate_dict i [] m = m"
| "enumerate_dict i (c # cs) m = enumerate_dict (i + 1) cs (m(c \<mapsto> i))"

definition DESIGN_CODE_ALPHABET :: "char \<rightharpoonup> int" where
  "DESIGN_CODE_ALPHABET = enumerate_dict 0 alphabet Map.empty"

text \<open>\<^verbatim>\<open>pattern_code.replace('-', '')\<close>\<close>

definition remove_hyphens :: "string \<Rightarrow> string" where
  "remove_hyphens s = filter (\<lambda>c. c \<noteq> CHR ''-'') s"

text \<open>The loop of \<^verbatim>\<open>design_id\<close>, with the accumulator \<^verbatim>\<open>n\<close>.\<close>

fun design_id_loop :: "string \<Rightarrow> int \<Rightarrow> error + int" where
  "design_id_loop [] n = Inr n"
| "design_id_loop (c # cs) n =
     (let n' = n * 30 in
      case DESIGN_CODE_ALPHABET c of
        None \<Rightarrow> Inl InvalidDesignCodeError
      | Some v \<Rightarrow> design_id_loop cs (n' + v))"

definition design_id :: "string \<Rightarrow> error + int" where
  "design_id pattern_code = design_id_loop (remove_hyphens pattern_code) 0"

text \<open>
  \<^verbatim>\<open>InvalidFormatError.validate\<close> for \<^verbatim>\<open>InvalidDesignCodeError\<close>: a full match of
  the regular expression \<^verbatim>\<open>[alphabet]{4}-[alphabet]{4}-[alphabet]{4}\<close>.
\<close>

definition segment_ok :: "string \<Rightarrow> bool" where
  "segment_ok s = (length s = 4 \<and> list_all (\<lambda>c. c \<in> set alphabet) s)"

definition regex_fullmatch :: "string \<Rightarrow> bool" where
  "regex_fullmatch s =
     (length s = 14 \<and> segment_ok (take 4 s) \<and> s ! 4 = CHR ''-'' \<and>
      segment_ok (take 4 (drop 5 s)) \<and> s ! 9 = CHR ''-'' \<and>
      segment_ok (drop 10 s))"

definition validate :: "string \<Rightarrow> error + string" where
  "validate s = (if \<not> regex_fullmatch s then Inl InvalidDesignCodeError else Inr s)"

text \<open>
  The API views decode a code with \<^verbatim>\<open>InvalidDesignCodeError.validate(design_code)\<close>
  followed by \<^verbatim>\<open>design_id(design_code)\<close>.
\<close>

definition view_design_id :: "string \<Rightarrow> error + int" where
  "view_design_id design_code =
     (case validate design_code of Inl e \<Rightarrow> Inl e | Inr s \<Rightarrow> design_id s)"

text \<open>
  The grouped shape of a design code as the specification words it: fourteen
  characters with the hyphens after the fourth and the eighth symbol.
\<close>

definition grouped_shape :: "string \<Rightarrow> bool" where
  "grouped_shape s = (length s = 14 \<and> s ! 4 = CHR ''-'' \<and> s ! 9 = CHR ''-'')"

text \<open>The position of a character in a string (its length when absent).\<close>

fun position :: "'a list \<Rightarrow> 'a \<Rightarrow> nat" where
  "position [] c = 0"
| "position (x # xs) c = (if x = c then 0 else Suc (position xs c))"

text \<open>
  Modelled from the spec: \<^verbatim>\<open>design_code\<close> (the encoder; its module
  \<^verbatim>\<open>acnh/designs/api.py\<close> is not among the sources). The spec: inverse base-30
  expansion to exactly 12 digits (zero-padded), grouped into three hyphen-separated
  4-character segments.
\<close>

fun base30_digits :: "nat \<Rightarrow> int \<Rightarrow> nat list" where
  "base30_digits 0 n = []"
| "base30_digits (Suc k) n = base30_digits k (n div 30) @ [nat (n mod 30)]"

definition design_code :: "int \<Rightarrow> string" where
  "design_code n =
     (let cs = map (\<lambda>d. alphabet ! d) (base30_digits 12 n)
      in take 4 cs @ ''-'' @ take 4 (drop 4 cs) @ ''-'' @ drop 8 cs)"

section \<open>Tile counts (\<^verbatim>\<open>acnh/errors.py\<close>)\<close>

text \<open>Python's \<^verbatim>\<open>//\<close> on integers: floor division, raising on a zero divisor.\<close>

definition floordiv :: "int \<Rightarrow> int \<Rightarrow> error + int" where
  "floordiv a b = (if b = 0 then Inl ZeroDivisionError else Inr (a div b))"

text \<open>
  \<^verbatim>\<open>width // WIDTH * height // HEIGHT\<close>, which Python reads from left to right as
  \<^verbatim>\<open>((width // WIDTH) * height) // HEIGHT\<close>. The constants \<^verbatim>\<open>WIDTH\<close> and
  \<^verbatim>\<open>HEIGHT\<close> come from a module that is not among the sources, so they are
  parameters here.
\<close>

definition num_tiles :: "int \<Rightarrow> int \<Rightarrow> int \<Rightarrow> int \<Rightarrow> error + int" where
  "num_tiles WIDTH HEIGHT width height =
     (case floordiv width WIDTH of
        Inl e \<Rightarrow> Inl e
      | Inr q \<Rightarrow> floordiv (q * height) HEIGHT)"

text \<open>
  \<^verbatim>\<open>TiledImageTooBigError.validate(img)\<close>: the constructor stores
  \<^verbatim>\<open>num_tiles(*img.size)\<close>, and the exception is raised when that exceeds
  \<^verbatim>\<open>MAX_DESIGN_TILES\<close> (a constant of the same missing module).
\<close>

definition tiled_validate :: "int \<Rightarrow> int \<Rightarrow> int \<Rightarrow> int \<times> int \<Rightarrow> error + unit" where
  "tiled_validate WIDTH HEIGHT MAX_DESIGN_TILES size_of_img =
     (case num_tiles WIDTH HEIGHT (fst size_of_img) (snd size_of_img) of
        Inl e \<Rightarrow> Inl e
      | Inr n \<Rightarrow> if n > MAX_DESIGN_TILES then Inl (TiledImageTooBigError n) else Inr ())"

section \<open>Python's \<^verbatim>\<open>int(str)\<close> and \<^verbatim>\<open>str(int)\<close>\<close>

text \<open>
  \<^verbatim>\<open>int(s)\<close> on a string of ASCII characters: surrounding whitespace is stripped, one
  sign is allowed, and the decimal digits may be separated by single underscores.
\<close>

definition is_space :: "char \<Rightarrow> bool" where
  "is_space c = (c \<in> set [CHR 0x09, CHR 0x0A, CHR 0x0B, CHR 0x0C, CHR 0x0D,
                            CHR 0x1C, CHR 0x1D, CHR 0x1E, CHR 0x1F, CHR 0x20])"

definition strip :: "string \<Rightarrow> string" where
  "strip s = rev (dropWhile is_space (rev (dropWhile is_space s)))"

definition digit_val :: "char \<Rightarrow> int option" where
  "digit_val c =
     (if (48::nat) \<le> of_char c \<and> of_char c \<le> (57::nat)
      then Some (int (of_char c) - 48) else None)"

fun digits_val :: "string \<Rightarrow> bool \<Rightarrow> int \<Rightarrow> error + int" where
  "digits_val [] after_digit acc = (if after_digit then Inr acc else Inl ValueError)"
| "digits_val (c # cs) after_digit acc =
     (if c = CHR ''_''
      then (if after_digit \<and> cs \<noteq> [] then digits_val cs False acc else Inl ValueError)
      else case digit_val c of
             None \<Rightarrow> Inl ValueError
           | Some d \<Rightarrow> digits_val cs True (acc * 10 + d))"

definition py_int :: "string \<Rightarrow> error + int" where
  "py_int s =
     (case strip s of
        [] \<Rightarrow> Inl ValueError
      | c # cs \<Rightarrow>
          if c = CHR ''-'' then (case digits_val cs False 0 of Inl e \<Rightarrow> Inl e | Inr n \<Rightarrow> Inr (- n))
          else if c = CHR ''+'' then digits_val cs False 0
          else digits_val (c # cs) False 0)"

definition digit_char :: "nat \<Rightarrow> char" where
  "digit_char d = ''0123456789'' ! d"

fun str_nat :: "nat \<Rightarrow> string" where
  "str_nat n = (if n < 10 then [digit_char n] else str_nat (n div 10) @ [digit_char (n mod 10)])"

declare str_nat.simps [simp del]

definition str_int :: "int \<Rightarrow> string" where
  "str_int i = (if i < 0 then CHR ''-'' # str_nat (nat (- i)) else str_nat (nat i))"

section \<open>Rendering a layer (\<^verbatim>\<open>acnh/designs/render.py\<close>)\<close>

text \<open>
  The fetched document \<^verbatim>\<open>raw_image\<close>: a dictionary whose entry \<^verbatim>\<open>mPalette\<close>
  maps index strings to 32-bit RGBA colours and whose entry \<^verbatim>\<open>mData\<close> maps layer
  index strings to packed bytes. A dictionary is the list of its items in iteration
  order; an entry that is absent is \<open>None\<close>.
\<close>

record raw_image =
  mPalette :: "(string \<times> int) list option"
  mData :: "(string \<times> 8 word list) list option"

fun gen_palette_loop :: "(string \<times> int) list \<Rightarrow> (int \<rightharpoonup> int) \<Rightarrow> error + (int \<rightharpoonup> int)" where
  "gen_palette_loop [] palette = Inr palette"
| "gen_palette_loop ((ind, color) # items) palette =
     (case py_int ind of
        Inl e \<Rightarrow> Inl e
      | Inr i \<Rightarrow> gen_palette_loop items (palette(i \<mapsto> color)))"

definition gen_palette :: "raw_image \<Rightarrow> error + (int \<rightharpoonup> int)" where
  "gen_palette raw =
     (case mPalette raw of
        None \<Rightarrow> Inl KeyError
      | Some items \<Rightarrow>
          (case gen_palette_loop items Map.empty of
             Inl e \<Rightarrow> Inl e
           | Inr palette \<Rightarrow> Inr (palette(0xF \<mapsto> 0))))"

text \<open>\<^verbatim>\<open>color.to_bytes(4, byteorder='big')\<close>\<close>

definition to_bytes4 :: "int \<Rightarrow> error + 8 word list" where
  "to_bytes4 n =
     (if 0 \<le> n \<and> n < 2 ^ 32
      then Inr [word_of_int (n div 2 ^ 24), word_of_int (n div 2 ^ 16),
                word_of_int (n div 2 ^ 8), word_of_int n]
      else Inl OverflowError)"

text \<open>The inner loop \<^verbatim>\<open>for nibble in b1, b2\<close>, appending to the buffer \<^verbatim>\<open>out\<close>.\<close>

fun write_nibbles :: "(int \<rightharpoonup> int) \<Rightarrow> int list \<Rightarrow> 8 word list \<Rightarrow> error + 8 word list" where
  "write_nibbles palette [] out = Inr out"
| "write_nibbles palette (nibble # nibbles) out =
     (case palette nibble of
        None \<Rightarrow> Inl KeyError
      | Some color \<Rightarrow>
          (case to_bytes4 color of
             Inl e \<Rightarrow> Inl e
           | Inr bs \<Rightarrow> write_nibbles palette nibbles (out @ bs)))"

text \<open>The outer loop \<^verbatim>\<open>for byte in layer\<close>.\<close>

fun render_loop :: "(int \<rightharpoonup> int) \<Rightarrow> 8 word list \<Rightarrow> 8 word list \<Rightarrow> error + 8 word list" where
  "render_loop palette [] out = Inr out"
| "render_loop palette (byte # layer) out =
     (let b1 = byte AND 0xF;
          b2 = (drop_bit 4 byte) AND 0xF
      in case write_nibbles palette [uint b1, uint b2] out of
           Inl e \<Rightarrow> Inl e
         | Inr out' \<Rightarrow> render_loop palette layer out')"

text \<open>
  \<^verbatim>\<open>_render_layer\<close>. Its palette argument is overwritten in the first line by
  \<^verbatim>\<open>gen_palette(raw_image)\<close>. The result is the content of the buffer \<^verbatim>\<open>out\<close>, four
  bytes (R, G, B, A) per pixel, which the function hands to the image library's
  \<^verbatim>\<open>import_pixels\<close>; the library's image object is outside the model.
\<close>

definition private_render_layer ::
    "raw_image \<Rightarrow> (int \<rightharpoonup> int) \<Rightarrow> 8 word list \<Rightarrow> error + 8 word list" where
  "private_render_layer raw palette layer =
     (case gen_palette raw of
        Inl e \<Rightarrow> Inl e
      | Inr palette' \<Rightarrow> render_loop palette' layer [])"

definition render_layer :: "raw_image \<Rightarrow> int \<Rightarrow> error + 8 word list" where
  "render_layer raw layer_i =
     (case mData raw of
        None \<Rightarrow> Inl KeyError
      | Some d \<Rightarrow>
          (case map_of d (str_int layer_i) of
             None \<Rightarrow> Inl (InvalidLayerIndexError (length d))
           | Some layer \<Rightarrow>
               (case gen_palette raw of
                  Inl e \<Rightarrow> Inl e
                | Inr palette \<Rightarrow> private_render_layer raw palette layer)))"

text \<open>
  Notions for stating the properties: the two nibbles of a byte as the loop computes
  them, the pixels of a buffer (consecutive groups of four bytes), and the four bytes
  that a palette gives for a nibble, when it has an entry that fits in 32 bits.
\<close>

definition low_nibble :: "8 word \<Rightarrow> int" where
  "low_nibble byte = uint (byte AND 0xF)"

definition high_nibble :: "8 word \<Rightarrow> int" where
  "high_nibble byte = uint ((drop_bit 4 byte) AND 0xF)"

definition pixel :: "8 word list \<Rightarrow> nat \<Rightarrow> 8 word list" where
  "pixel out k = take 4 (drop (4 * k) out)"

definition px :: "(int \<rightharpoonup> int) \<Rightarrow> int \<Rightarrow> 8 word list option" where
  "px palette n =
     (case palette n of
        None \<Rightarrow> None
      | Some color \<Rightarrow> (case to_bytes4 color of Inl e \<Rightarrow> None | Inr bs \<Rightarrow> Some bs))"

text \<open>
  A small document for evaluating the functions: three palette entries, one of them an
  opaque white stored under index 15, and one layer of two bytes.
\<close>

definition sample_document :: raw_image where
  "sample_document =
     \<lparr>mPalette = Some [(''0'', 0x11223344), (''1'', 0xFF), (''15'', 0xFFFFFFFF)],
      mData = Some [(''0'', [0x10, 0xF1])]\<rparr>"

section \<open>Serialised failures (\<^verbatim>\<open>acnh/errors.py\<close>)\<close>

datatype pyval = PStr string | PInt int

text \<open>
  The class attributes \<^verbatim>\<open>code\<close>, \<^verbatim>\<open>message\<close> and \<^verbatim>\<open>http_status\<close>, looked up
  along the method resolution order; \<open>None\<close> where no class on it assigns one (the
  base class only annotates them). Python's own exceptions have none of them.
\<close>

fun code :: "error \<Rightarrow> int option" where
  "code InvalidDesignCodeError = Some 202"
| "code (InvalidLayerIndexError n) = Some 206"
| "code (InvalidLayerSizeError nm w h) = Some 305"
| "code (TiledImageTooBigError n) = Some 306"
| "code _ = None"

text \<open>
  \<^verbatim>\<open>self.message.format(self)\<close>. The multiplication sign of the size message is
  its two UTF-8 bytes; the tile limit in the last message is the constant
  \<^verbatim>\<open>MAX_DESIGN_TILES\<close>.
\<close>

fun message_format :: "int \<Rightarrow> error \<Rightarrow> string option" where
  "message_format lim InvalidDesignCodeError = Some ''invalid design code''"
| "message_format lim (InvalidLayerIndexError n) = Some ''Invalid layer index''"
| "message_format lim (InvalidLayerSizeError nm w h) =
     Some (''layer '' @ nm @ '' was not '' @ str_int w @ [CHR 0xC3, CHR 0x97] @ str_int h @ ''.'')"
| "message_format lim (TiledImageTooBigError n) =
     Some (''The uploaded image would create '' @ str_int n @
           '' tiles, which is greater than the limit, '' @ str_int lim @ ''.'')"
| "message_format lim _ = None"

fun http_status :: "error \<Rightarrow> int option" where
  "http_status InvalidDesignCodeError = Some 400"
| "http_status (InvalidLayerIndexError n) = None"
| "http_status (InvalidLayerSizeError nm w h) = Some 400"
| "http_status (TiledImageTooBigError n) = Some 413"
| "http_status _ = None"

text \<open>\<^verbatim>\<open>ACNHError.to_dict\<close>: a missing attribute raises \<^verbatim>\<open>AttributeError\<close>.\<close>

definition base_to_dict :: "int \<Rightarrow> error \<Rightarrow> error + (string \<times> pyval) list" where
  "base_to_dict lim e =
     (case message_format lim e of
        None \<Rightarrow> Inl AttributeError
      | Some m \<Rightarrow>
          (case code e of
             None \<Rightarrow> Inl AttributeError
           | Some c \<Rightarrow>
               (case http_status e of
                  None \<Rightarrow> Inl AttributeError
                | Some h \<Rightarrow>
                    Inr [(''error'', PStr m), (''error_code'', PInt c), (''http_status'', PInt h)])))"

definition regex_pattern :: string where
  "regex_pattern =
     ''['' @ alphabet @ '']{4}-['' @ alphabet @ '']{4}-['' @ alphabet @ '']{4}''"

text \<open>
  \<^verbatim>\<open>to_dict\<close> as each class overrides it; the result \<open>None\<close> is Python's
  \<^verbatim>\<open>None\<close>, returned by a method that ends without a \<^verbatim>\<open>return\<close>.
  \<^verbatim>\<open>BYTES_PER_PIXEL\<close> and \<^verbatim>\<open>MAX_DESIGN_TILES\<close> are constants of the missing
  format module.
\<close>

fun to_dict :: "int \<Rightarrow> int \<Rightarrow> error \<Rightarrow> error + (string \<times> pyval) list option" where
  "to_dict bpp lim InvalidDesignCodeError =
     (case base_to_dict lim InvalidDesignCodeError of
        Inl e \<Rightarrow> Inl e
      | Inr d \<Rightarrow> Inr (Some (d @ [(''validation_regex'', PStr regex_pattern)])))"
| "to_dict bpp lim (InvalidLayerIndexError n) =
     (case base_to_dict lim (InvalidLayerIndexError n) of
        Inl e \<Rightarrow> Inl e
      | Inr d \<Rightarrow> (let d' = d @ [(''num_layers'', PInt (int n))] in Inr None))"
| "to_dict bpp lim (InvalidLayerSizeError nm w h) =
     (case base_to_dict lim (InvalidLayerSizeError nm w h) of
        Inl e \<Rightarrow> Inl e
      | Inr d \<Rightarrow>
          Inr (Some (d @ [(''expected_width'', PInt w), (''expected_height'', PInt h),
                          (''expected_byte_length'', PInt (w * h * bpp))])))"
| "to_dict bpp lim (TiledImageTooBigError n) =
     (case base_to_dict lim (TiledImageTooBigError n) of
        Inl e \<Rightarrow> Inl e
      | Inr d \<Rightarrow> Inr (Some d))"
| "to_dict bpp lim _ = Inl AttributeError"

section \<open>Properties of the design code transform\<close>

lemma hyphen_not_in_alphabet: "CHR ''-'' \<notin> set alphabet"
  by (simp add: alphabet_def)

lemma distinct_alphabet: "distinct alphabet"
  by (simp add: alphabet_def)

lemma length_alphabet: "length alphabet = 30"
  by (simp add: alphabet_def)

lemma alphabet_lookup:
  "DESIGN_CODE_ALPHABET c =
     (if c \<in> set alphabet then Some (int (position alphabet c)) else None)"
  by (simp add: DESIGN_CODE_ALPHABET_def alphabet_def)

lemma position_nth: "distinct xs \<Longrightarrow> i < length xs \<Longrightarrow> position xs (xs ! i) = i"
proof (induction xs arbitrary: i)
  case Nil
  then show ?case by simp
next
  case (Cons x xs)
  then show ?case by (cases i) auto
qed

lemma position_less: "c \<in> set xs \<Longrightarrow> position xs c < length xs"
  by (induction xs) auto

lemma loop_append:
  "design_id_loop (xs @ ys) n =
     (case design_id_loop xs n of Inl e \<Rightarrow> Inl e | Inr m \<Rightarrow> design_id_loop ys m)"
  by (induction xs arbitrary: n) (auto simp: Let_def split: option.splits)

lemma loop_value:
  "\<forall>c\<in>set cs. c \<in> set alphabet \<Longrightarrow>
   design_id_loop cs n =
     Inr (n * 30 ^ length cs +
          (\<Sum>i<length cs. int (position alphabet (cs ! i)) * 30 ^ (length cs - 1 - i)))"
proof (induction cs arbitrary: n)
  case Nil
  then show ?case by simp
next
  case (Cons c cs)
  have c: "DESIGN_CODE_ALPHABET c = Some (int (position alphabet c))"
    using Cons.prems by (simp add: alphabet_lookup)
  have "design_id_loop (c # cs) n = design_id_loop cs (n * 30 + int (position alphabet c))"
    by (simp add: c)
  also have "\<dots> = Inr ((n * 30 + int (position alphabet c)) * 30 ^ length cs +
          (\<Sum>i<length cs. int (position alphabet (cs ! i)) * 30 ^ (length cs - 1 - i)))"
    using Cons.prems by (intro Cons.IH) simp
  also have "(n * 30 + int (position alphabet c)) * 30 ^ length cs +
          (\<Sum>i<length cs. int (position alphabet (cs ! i)) * 30 ^ (length cs - 1 - i))
     = n * 30 ^ length (c # cs) +
          (\<Sum>i<length (c # cs). int (position alphabet ((c # cs) ! i)) * 30 ^ (length (c # cs) - 1 - i))"
    by (simp add: sum.lessThan_Suc_shift algebra_simps del: sum.lessThan_Suc)
  finally show ?case .
qed

lemma loop_fails:
  "design_id_loop cs n = Inl e \<longleftrightarrow>
     e = InvalidDesignCodeError \<and> (\<exists>c\<in>set cs. c \<notin> set alphabet)"
  by (induction cs arbitrary: n) (auto simp: alphabet_lookup split: if_splits)

lemma loop_bounds:
  "design_id_loop cs n = Inr m \<Longrightarrow> 0 \<le> n \<Longrightarrow>
     n * 30 ^ length cs \<le> m \<and> m < (n + 1) * 30 ^ length cs"
proof (induction cs arbitrary: n)
  case Nil
  then show ?case by simp
next
  case (Cons c cs)
  from Cons.prems(1) obtain v where v: "DESIGN_CODE_ALPHABET c = Some v"
    and r: "design_id_loop cs (n * 30 + v) = Inr m"
    by (auto split: option.splits)
  from v have cin: "c \<in> set alphabet" and veq: "v = int (position alphabet c)"
    by (auto simp: alphabet_lookup split: if_splits)
  have v0: "0 \<le> v" and v30: "v < 30"
    using position_less [OF cin] by (simp_all add: veq length_alphabet)
  have "0 \<le> n * 30 + v" using Cons.prems(2) v0 by simp
  from Cons.IH [OF r this]
  have lo: "(n * 30 + v) * 30 ^ length cs \<le> m" and hi: "m < (n * 30 + v + 1) * 30 ^ length cs"
    by simp_all
  have "n * 30 * 30 ^ length cs \<le> (n * 30 + v) * 30 ^ length cs"
    using v0 by (intro mult_right_mono) simp_all
  moreover have "(n * 30 + v + 1) * 30 ^ length cs \<le> ((n + 1) * 30) * 30 ^ length cs"
    using v30 by (intro mult_right_mono) simp_all
  ultimately have "n * 30 * 30 ^ length cs \<le> m" and "m < ((n + 1) * 30) * 30 ^ length cs"
    using lo hi by linarith+
  then show ?case by (simp add: algebra_simps)
qed

lemma digits_length: "length (base30_digits k n) = k"
  by (induction k arbitrary: n) simp_all

lemma digits_less: "\<forall>d\<in>set (base30_digits k n). d < 30"
  by (induction k arbitrary: n) (auto simp: nat_less_iff)

lemma loop_digits:
  "design_id_loop (map (\<lambda>d. alphabet ! d) (base30_digits k n)) a = Inr (a * 30 ^ k + n mod 30 ^ k)"
proof (induction k arbitrary: n a)
  case 0
  then show ?case by simp
next
  case (Suc k)
  have d: "nat (n mod 30) < 30" by (simp add: nat_less_iff)
  have "DESIGN_CODE_ALPHABET (alphabet ! nat (n mod 30)) = Some (n mod 30)"
    using d by (simp add: alphabet_lookup position_nth distinct_alphabet length_alphabet)
  then have "design_id_loop (map (\<lambda>d. alphabet ! d) (base30_digits (Suc k) n)) a
      = Inr ((a * 30 ^ k + (n div 30) mod 30 ^ k) * 30 + n mod 30)"
    by (simp add: loop_append Suc.IH)
  moreover have "n mod 30 ^ Suc k = 30 * ((n div 30) mod 30 ^ k) + n mod 30"
    using zmod_zmult2_eq [of "30 ^ k" n 30] by simp
  ultimately show ?case by (simp add: algebra_simps)
qed

lemma remove_hyphens_design_code:
  "remove_hyphens (design_code n) = map (\<lambda>d. alphabet ! d) (base30_digits 12 n)"
proof -
  let ?cs = "map (\<lambda>d. alphabet ! d) (base30_digits 12 n)"
  have "\<forall>c\<in>set ?cs. c \<in> set alphabet"
    using digits_less [of 12 n] by (auto simp: length_alphabet)
  then have nohy: "\<forall>c\<in>set ?cs. c \<noteq> CHR ''-''"
    using hyphen_not_in_alphabet by auto
  have f: "filter (\<lambda>c. c \<noteq> CHR ''-'') ?cs = ?cs"
    using nohy by (simp add: filter_id_conv)
  have "remove_hyphens (design_code n)
      = filter (\<lambda>c. c \<noteq> CHR ''-'') (take 4 ?cs) @ filter (\<lambda>c. c \<noteq> CHR ''-'') (take 4 (drop 4 ?cs))
        @ filter (\<lambda>c. c \<noteq> CHR ''-'') (drop 8 ?cs)"
    by (simp add: remove_hyphens_def design_code_def Let_def)
  also have "\<dots> = filter (\<lambda>c. c \<noteq> CHR ''-'') (take 4 ?cs @ take 4 (drop 4 ?cs) @ drop 4 (drop 4 ?cs))"
    by simp
  also have "\<dots> = filter (\<lambda>c. c \<noteq> CHR ''-'') ?cs"
    by (simp only: append_take_drop_id)
  finally show ?thesis using f by simp
qed

lemma split_14:
  assumes "length s = 14"
  shows "s = take 4 s @ [s ! 4] @ take 4 (drop 5 s) @ [s ! 9] @ drop 10 s"
proof -
  have a: "s = take 4 s @ s ! 4 # drop 5 s"
    using id_take_nth_drop [of 4 s] assms by simp
  have b: "drop 5 s = take 4 (drop 5 s) @ (drop 5 s) ! 4 # drop 5 (drop 5 s)"
    using id_take_nth_drop [of 4 "drop 5 s"] assms by simp
  have "drop 5 s = take 4 (drop 5 s) @ s ! 9 # drop 10 s"
    using b assms by simp
  then show ?thesis using a by simp
qed

lemma filter_full:
  "length (filter P xs) = length xs \<longleftrightarrow> (\<forall>x\<in>set xs. P x)"
proof (induction xs)
  case Nil
  then show ?case by simp
next
  case (Cons x xs)
  show ?case
  proof (cases "P x")
    case True
    then show ?thesis using Cons by simp
  next
    case False
    have "length (filter P xs) \<noteq> Suc (length xs)"
      using length_filter_le [of P xs] by linarith
    then show ?thesis using False by simp
  qed
qed

lemma regex_fullmatch_iff:
  "regex_fullmatch s \<longleftrightarrow>
     grouped_shape s \<and> length (remove_hyphens s) = 12 \<and>
     (\<forall>c\<in>set (remove_hyphens s). c \<in> set alphabet)"
proof
  assume m: "regex_fullmatch s"
  then have len: "length s = 14" and h4: "s ! 4 = CHR ''-''" and h9: "s ! 9 = CHR ''-''"
    and a: "\<forall>c\<in>set (take 4 s). c \<in> set alphabet"
    and b: "\<forall>c\<in>set (take 4 (drop 5 s)). c \<in> set alphabet"
    and c: "\<forall>c\<in>set (drop 10 s). c \<in> set alphabet"
    by (simp_all add: regex_fullmatch_def segment_ok_def list_all_iff)
  let ?P = "\<lambda>c. c \<noteq> CHR ''-''"
  have fa: "filter ?P (take 4 s) = take 4 s"
    using a hyphen_not_in_alphabet by (auto simp: filter_id_conv)
  have fb: "filter ?P (take 4 (drop 5 s)) = take 4 (drop 5 s)"
    using b hyphen_not_in_alphabet by (auto simp: filter_id_conv)
  have fc: "filter ?P (drop 10 s) = drop 10 s"
    using c hyphen_not_in_alphabet by (auto simp: filter_id_conv)
  have "remove_hyphens s = filter ?P (take 4 s @ [s ! 4] @ take 4 (drop 5 s) @ [s ! 9] @ drop 10 s)"
    unfolding remove_hyphens_def using split_14 [OF len] by simp
  then have r: "remove_hyphens s = take 4 s @ take 4 (drop 5 s) @ drop 10 s"
    using h4 h9 fa fb fc by simp
  show "grouped_shape s \<and> length (remove_hyphens s) = 12 \<and>
     (\<forall>c\<in>set (remove_hyphens s). c \<in> set alphabet)"
    using len h4 h9 a b c unfolding r by (auto simp: grouped_shape_def)
next
  assume "grouped_shape s \<and> length (remove_hyphens s) = 12 \<and>
     (\<forall>c\<in>set (remove_hyphens s). c \<in> set alphabet)"
  then have len: "length s = 14" and h4: "s ! 4 = CHR ''-''" and h9: "s ! 9 = CHR ''-''"
    and l12: "length (remove_hyphens s) = 12"
    and al: "\<forall>c\<in>set (remove_hyphens s). c \<in> set alphabet"
    by (simp_all add: grouped_shape_def)
  let ?P = "\<lambda>c. c \<noteq> CHR ''-''"
  let ?a = "take 4 s" and ?b = "take 4 (drop 5 s)" and ?c = "drop 10 s"
  have "remove_hyphens s = filter ?P (?a @ [s ! 4] @ ?b @ [s ! 9] @ ?c)"
    unfolding remove_hyphens_def using split_14 [OF len] by simp
  then have r: "remove_hyphens s = filter ?P ?a @ filter ?P ?b @ filter ?P ?c"
    using h4 h9 by simp
  have la: "length (filter ?P ?a) \<le> 4" and lb: "length (filter ?P ?b) \<le> 4"
    and lc: "length (filter ?P ?c) \<le> 4"
    using length_filter_le [of ?P ?a] length_filter_le [of ?P ?b] length_filter_le [of ?P ?c] len
    by simp_all
  have "length (filter ?P ?a) + length (filter ?P ?b) + length (filter ?P ?c) = 12"
    using l12 r by simp
  then have ea: "length (filter ?P ?a) = length ?a" and eb: "length (filter ?P ?b) = length ?b"
    and ec: "length (filter ?P ?c) = length ?c"
    using la lb lc len by simp_all
  have fa: "filter ?P ?a = ?a" using ea by (simp only: filter_full filter_id_conv)
  have fb: "filter ?P ?b = ?b" using eb by (simp only: filter_full filter_id_conv)
  have fc: "filter ?P ?c = ?c" using ec by (simp only: filter_full filter_id_conv)
  have "remove_hyphens s = ?a @ ?b @ ?c" using r fa fb fc by simp
  then have "\<forall>c\<in>set (?a @ ?b @ ?c). c \<in> set alphabet" using al by simp
  then show "regex_fullmatch s"
    using len h4 h9 by (simp add: regex_fullmatch_def segment_ok_def list_all_iff)
qed

lemma design_id_fails:
  "design_id s = Inl e \<longleftrightarrow>
     e = InvalidDesignCodeError \<and> (\<exists>c\<in>set (remove_hyphens s). c \<notin> set alphabet)"
  by (simp add: design_id_def loop_fails)

lemma view_ok: "regex_fullmatch s \<Longrightarrow> \<exists>n. view_design_id s = Inr n"
proof -
  assume m: "regex_fullmatch s"
  then have "\<forall>c\<in>set (remove_hyphens s). c \<in> set alphabet"
    by (simp add: regex_fullmatch_iff)
  then have "\<exists>n. design_id s = Inr n"
    using loop_value [of "remove_hyphens s" 0] by (simp add: design_id_def)
  then show ?thesis using m by (simp add: view_design_id_def validate_def)
qed

text \<open>
  C1. For every id in the interval from 0 up to, but not including, \<open>30 ^ 12\<close>,
  encoding the id to a design code and decoding that code with \<^verbatim>\<open>design_id\<close> yields
  the id again.
\<close>

theorem design_id_design_code_roundtrip:
  assumes "0 \<le> n" and "n < 30 ^ 12"
  shows "design_id (design_code n) = Inr n"
  using assms by (simp add: design_id_def remove_hyphens_design_code loop_digits)

theorem design_id_design_code_roundtrip_witness:
  "(0::int) \<le> 123456789 \<and> (123456789::int) < 30 ^ 12 \<and>
   design_code 123456789 = ''0000-0052-DG69'' \<and>
   design_id ''0000-0052-DG69'' = Inr 123456789"
proof -
  have c: "design_code 123456789 = ''0000-0052-DG69''"
    by (simp add: design_code_def alphabet_def eval_nat_numeral)
  show ?thesis
    using design_id_design_code_roundtrip [of 123456789] by (simp add: c)
qed

text \<open>
  C2. The claim reads the tile count as \<open>(W' div W) * (H' div H)\<close>. The expression
  \<^verbatim>\<open>width // WIDTH * height // HEIGHT\<close> multiplies before the second division: for a
  64 by 48 raster and 32 by 32 tiles it gives 3, where the claimed product is 2.
\<close>

theorem num_tiles_64_48:
  "num_tiles 32 32 64 48 = Inr 3 \<and> (64 div 32) * (48 div 32) = (2::int)"
  by (simp add: num_tiles_def floordiv_def)

text \<open>
  C3. For every design code whose characters, hyphens removed, are twelve symbols
  \<open>c\<^sub>0 \<dots> c\<^sub>1\<^sub>1\<close> of the alphabet, \<^verbatim>\<open>design_id\<close> returns the sum of
  \<open>value c\<^sub>i * 30 ^ (11 - i)\<close>, where the value of a symbol is its position in the
  alphabet.
\<close>

theorem design_id_positional_sum:
  assumes "remove_hyphens pattern_code = cs" and "length cs = 12"
    and "\<forall>c\<in>set cs. c \<in> set alphabet"
  shows "design_id pattern_code =
           Inr (\<Sum>i<12. int (position alphabet (cs ! i)) * 30 ^ (11 - i))"
  using loop_value [OF assms(3), of 0] assms(1,2) by (simp add: design_id_def)

theorem design_id_positional_sum_witness:
  "remove_hyphens ''BCDF-1234-VWXY'' = ''BCDF1234VWXY'' \<and>
   length ''BCDF1234VWXY'' = 12 \<and>
   set ''BCDF1234VWXY'' \<subseteq> set alphabet \<and>
   design_id ''BCDF-1234-VWXY'' =
     Inr (\<Sum>i<12. int (position alphabet (''BCDF1234VWXY'' ! i)) * 30 ^ (11 - i))"
proof -
  have a: "remove_hyphens ''BCDF-1234-VWXY'' = ''BCDF1234VWXY''"
    by (simp add: remove_hyphens_def)
  have b: "length ''BCDF1234VWXY'' = 12" by simp
  have c: "\<forall>c\<in>set ''BCDF1234VWXY''. c \<in> set alphabet"
    by (simp add: alphabet_def)
  have d: "set ''BCDF1234VWXY'' \<subseteq> set alphabet"
    using c by blast
  show ?thesis
    using design_id_positional_sum [OF a b c] a b d by blast
qed

text \<open>
  C7, as stated: \<^verbatim>\<open>design_id\<close> rejects every input that has not exactly twelve
  symbols or not the grouped shape. It accepts the one-character code \<^verbatim>\<open>0\<close>.
\<close>

theorem design_id_accepts_short_code:
  "design_id ''0'' = Inr 0 \<and> length (remove_hyphens ''0'') = 1 \<and> \<not> grouped_shape ''0''"
  by (simp add: design_id_def remove_hyphens_def alphabet_lookup alphabet_def grouped_shape_def)

text \<open>
  C7, amended. \<^verbatim>\<open>design_id\<close> fails with the invalid design code error exactly when
  some character, hyphens removed, is outside the alphabet; it checks neither the
  number of symbols nor the grouping. Decoding as the API views do it, the format
  validation followed by \<^verbatim>\<open>design_id\<close>, fails with that error exactly when some
  character, hyphens removed, is outside the alphabet, or there are not exactly twelve
  such characters, or the code has not the grouped shape.
\<close>

theorem design_id_rejects_iff:
  "(design_id s = Inl InvalidDesignCodeError \<longleftrightarrow>
      (\<exists>c\<in>set (remove_hyphens s). c \<notin> set alphabet)) \<and>
   (view_design_id s = Inl InvalidDesignCodeError \<longleftrightarrow>
      (\<exists>c\<in>set (remove_hyphens s). c \<notin> set alphabet) \<or>
      length (remove_hyphens s) \<noteq> 12 \<or> \<not> grouped_shape s)"
proof -
  have "view_design_id s = Inl InvalidDesignCodeError \<longleftrightarrow> \<not> regex_fullmatch s"
    using view_ok [of s] by (auto simp: view_design_id_def validate_def)
  then show ?thesis by (auto simp: design_id_fails regex_fullmatch_iff)
qed

theorem design_id_rejects_iff_witness:
  "grouped_shape ''BCDF-1234-VWXY'' \<and> length (remove_hyphens ''BCDF-1234-VWXY'') = 12 \<and>
   set (remove_hyphens ''BCDF-1234-VWXY'') \<subseteq> set alphabet \<and>
   view_design_id ''BCDF-1234-VWXY'' \<noteq> Inl InvalidDesignCodeError \<and>
   design_id ''BCDF-1234-VWXY'' \<noteq> Inl InvalidDesignCodeError \<and>
   \<not> grouped_shape ''BCDF1234VWXY'' \<and>
   view_design_id ''BCDF1234VWXY'' = Inl InvalidDesignCodeError \<and>
   design_id ''BCDF1234VWXY'' \<noteq> Inl InvalidDesignCodeError"
  using design_id_rejects_iff [of "''BCDF-1234-VWXY''"] design_id_rejects_iff [of "''BCDF1234VWXY''"]
  by (simp add: remove_hyphens_def grouped_shape_def alphabet_def)

text \<open>
  C8, as stated: the code \<^verbatim>\<open>ABCD-1234-WXYZ\<close> is accepted. Its characters \<^verbatim>\<open>A\<close> and
  \<^verbatim>\<open>Z\<close> are not in the alphabet, and \<^verbatim>\<open>design_id\<close> raises.
\<close>

theorem design_id_rejects_ABCD_1234_WXYZ:
  "design_id ''ABCD-1234-WXYZ'' = Inl InvalidDesignCodeError"
  by (simp add: design_id_def remove_hyphens_def alphabet_lookup alphabet_def)

text \<open>
  C8, amended. The characters \<^verbatim>\<open>A\<close> and \<^verbatim>\<open>Z\<close> are outside the 30-symbol alphabet;
  every code that, hyphens removed, consists of twelve characters of the alphabet is
  decoded by \<^verbatim>\<open>design_id\<close> to a single non-negative integer strictly below
  \<open>30 ^ 12\<close>.
\<close>

theorem design_id_in_range:
  "CHR ''A'' \<notin> set alphabet \<and> CHR ''Z'' \<notin> set alphabet \<and>
   (length (remove_hyphens s) = 12 \<and> (\<forall>c\<in>set (remove_hyphens s). c \<in> set alphabet)
     \<longrightarrow> (\<exists>n. design_id s = Inr n \<and> 0 \<le> n \<and> n < 30 ^ 12))"
proof -
  have a: "CHR ''A'' \<notin> set alphabet \<and> CHR ''Z'' \<notin> set alphabet"
    by (simp add: alphabet_def)
  have b: "\<exists>n. design_id s = Inr n \<and> 0 \<le> n \<and> n < 30 ^ 12"
    if l: "length (remove_hyphens s) = 12"
      and al: "\<forall>c\<in>set (remove_hyphens s). c \<in> set alphabet"
  proof -
    obtain n where n: "design_id_loop (remove_hyphens s) 0 = Inr n"
      using loop_value [OF al, of 0] by simp
    from loop_bounds [OF n] l have "0 \<le> n \<and> n < 30 ^ 12" by simp
    then show ?thesis using n by (simp add: design_id_def)
  qed
  show ?thesis using a b by blast
qed

theorem design_id_in_range_witness:
  "length (remove_hyphens ''BCDF-1234-VWXY'') = 12 \<and>
   set (remove_hyphens ''BCDF-1234-VWXY'') \<subseteq> set alphabet \<and>
   design_id ''BCDF-1234-VWXY'' = Inr 183887138704867169 \<and>
   (183887138704867169::int) < 30 ^ 12"
  using design_id_in_range [of "''BCDF-1234-VWXY''"]
  by (simp add: design_id_def remove_hyphens_def alphabet_lookup alphabet_def)

section \<open>Properties of the layer renderer\<close>

lemma to_bytes4_length: "to_bytes4 c = Inr bs \<Longrightarrow> length bs = 4"
  by (auto simp: to_bytes4_def split: if_splits)

lemma to_bytes4_error: "to_bytes4 c = Inl e \<Longrightarrow> e = OverflowError"
  by (auto simp: to_bytes4_def split: if_splits)

lemma px_length: "px pal n = Some bs \<Longrightarrow> length bs = 4"
  by (auto simp: px_def to_bytes4_length split: option.splits sum.splits)

lemma px_Some_iff:
  "px pal n = Some bs \<longleftrightarrow> (\<exists>c. pal n = Some c \<and> to_bytes4 c = Inr bs)"
  by (auto simp: px_def split: option.splits sum.splits)

lemma px_None_iff:
  "px pal n \<noteq> None \<longleftrightarrow> (\<exists>c. pal n = Some c \<and> 0 \<le> c \<and> c < 2 ^ 32)"
  by (auto simp: px_def to_bytes4_def split: option.splits sum.splits)

lemma px_Some_ex:
  "(\<exists>bs. px pal n = Some bs) \<longleftrightarrow> (\<exists>c. pal n = Some c \<and> 0 \<le> c \<and> c < 2 ^ 32)"
  using px_None_iff [of pal n] by auto

lemma write_nibbles_Inr:
  "write_nibbles pal ns out0 = Inr out \<longleftrightarrow>
     (\<forall>n\<in>set ns. px pal n \<noteq> None) \<and> out = out0 @ concat (map (\<lambda>n. the (px pal n)) ns)"
  by (induction ns arbitrary: out0) (auto simp: px_def split: option.splits sum.splits)

lemma write_nibbles_Inl:
  "write_nibbles pal ns out0 = Inl e \<Longrightarrow> e = KeyError \<or> e = OverflowError"
  by (induction ns arbitrary: out0) (auto split: option.splits sum.splits dest: to_bytes4_error)

lemma render_loop_Inr:
  "render_loop pal layer out0 = Inr out \<longleftrightarrow>
     (\<forall>b\<in>set layer. px pal (low_nibble b) \<noteq> None \<and> px pal (high_nibble b) \<noteq> None) \<and>
     out = out0 @ concat (map (\<lambda>b. the (px pal (low_nibble b)) @ the (px pal (high_nibble b))) layer)"
proof (induction layer arbitrary: out0)
  case Nil
  then show ?case by auto
next
  case (Cons b layer)
  show ?case
  proof (cases "write_nibbles pal [low_nibble b, high_nibble b] out0")
    case (Inl e)
    have "\<not> (px pal (low_nibble b) \<noteq> None \<and> px pal (high_nibble b) \<noteq> None)"
    proof
      assume c: "px pal (low_nibble b) \<noteq> None \<and> px pal (high_nibble b) \<noteq> None"
      have "write_nibbles pal [low_nibble b, high_nibble b] out0 =
              Inr (out0 @ concat (map (\<lambda>n. the (px pal n)) [low_nibble b, high_nibble b]))"
        using c by (simp add: write_nibbles_Inr del: write_nibbles.simps)
      then show False using Inl by simp
    qed
    then show ?thesis using Inl by (auto simp: Let_def low_nibble_def high_nibble_def)
  next
    case (Inr out1)
    then have a: "px pal (low_nibble b) \<noteq> None \<and> px pal (high_nibble b) \<noteq> None"
      and b: "out1 = out0 @ the (px pal (low_nibble b)) @ the (px pal (high_nibble b))"
      using write_nibbles_Inr [of pal "[low_nibble b, high_nibble b]" out0 out1] by auto
    have "render_loop pal (b # layer) out0 = render_loop pal layer out1"
      using Inr by (simp add: Let_def low_nibble_def high_nibble_def)
    then show ?thesis using a b Cons.IH [of out1] by auto
  qed
qed

lemma render_loop_Inl:
  "render_loop pal layer out0 = Inl e \<Longrightarrow> e = KeyError \<or> e = OverflowError"
proof (induction layer arbitrary: out0)
  case Nil
  then show ?case by simp
next
  case (Cons b layer)
  then show ?case
    by (auto simp: Let_def split: sum.splits dest: write_nibbles_Inl simp del: write_nibbles.simps)
qed

lemma pixel_pairs:
  "\<forall>b\<in>set layer. length (f b) = 4 \<and> length (g b) = 4 \<Longrightarrow> i < length layer \<Longrightarrow>
     pixel (concat (map (\<lambda>b. f b @ g b) layer)) (2 * i) = f (layer ! i) \<and>
     pixel (concat (map (\<lambda>b. f b @ g b) layer)) (2 * i + 1) = g (layer ! i)"
proof (induction layer arbitrary: i)
  case Nil
  then show ?case by simp
next
  case (Cons b layer)
  show ?case
  proof (cases i)
    case 0
    then show ?thesis using Cons.prems by (simp add: pixel_def)
  next
    case (Suc j)
    then have "j < length layer" using Cons.prems by simp
    from Cons.IH [OF _ this] Cons.prems(1)
    have "pixel (concat (map (\<lambda>b. f b @ g b) layer)) (2 * j) = f (layer ! j) \<and>
          pixel (concat (map (\<lambda>b. f b @ g b) layer)) (2 * j + 1) = g (layer ! j)"
      by simp
    then show ?thesis using Suc Cons.prems(1) by (simp add: pixel_def)
  qed
qed

lemma length_pairs:
  "\<forall>b\<in>set layer. length (f b) = 4 \<and> length (g b) = 4 \<Longrightarrow>
     length (concat (map (\<lambda>b. f b @ g b) layer)) = 8 * length layer"
  by (induction layer) simp_all

lemma digits_val_error: "digits_val cs a acc = Inl e \<Longrightarrow> e = ValueError"
  by (induction cs a acc rule: digits_val.induct) (auto split: if_splits option.splits)

lemma py_int_error: "py_int s = Inl e \<Longrightarrow> e = ValueError"
  by (auto simp: py_int_def split: list.splits if_splits sum.splits option.splits
      dest: digits_val_error)

lemma gen_palette_loop_error: "gen_palette_loop items m = Inl e \<Longrightarrow> e = ValueError"
  by (induction items m rule: gen_palette_loop.induct) (auto split: sum.splits dest: py_int_error)

lemma gen_palette_error: "gen_palette raw = Inl e \<Longrightarrow> e = KeyError \<or> e = ValueError"
  by (auto simp: gen_palette_def split: option.splits sum.splits dest: gen_palette_loop_error)

lemma gen_palette_15: "gen_palette raw = Inr pal \<Longrightarrow> pal 15 = Some 0"
  by (auto simp: gen_palette_def split: option.splits sum.splits)

lemma px_15: "pal 15 = Some 0 \<Longrightarrow> px pal 15 = Some [0, 0, 0, 0]"
  by (simp add: px_def to_bytes4_def)

lemma private_render_layer_Inr:
  assumes "private_render_layer raw p layer = Inr out"
  shows "\<exists>pal. gen_palette raw = Inr pal \<and> render_loop pal layer [] = Inr out"
  using assms by (auto simp: private_render_layer_def split: sum.splits)

lemma render_loop_pixels:
  assumes r: "render_loop pal layer [] = Inr out" and i: "i < length layer"
  shows "px pal (low_nibble (layer ! i)) = Some (pixel out (2 * i)) \<and>
         px pal (high_nibble (layer ! i)) = Some (pixel out (2 * i + 1))"
proof -
  let ?f = "\<lambda>b. the (px pal (low_nibble b))" and ?g = "\<lambda>b. the (px pal (high_nibble b))"
  from r have ok: "\<forall>b\<in>set layer. px pal (low_nibble b) \<noteq> None \<and> px pal (high_nibble b) \<noteq> None"
    and out: "out = concat (map (\<lambda>b. ?f b @ ?g b) layer)"
    by (simp_all add: render_loop_Inr)
  have len: "\<forall>b\<in>set layer. length (?f b) = 4 \<and> length (?g b) = 4"
    using ok px_length by fastforce
  have "pixel out (2 * i) = ?f (layer ! i) \<and> pixel out (2 * i + 1) = ?g (layer ! i)"
    unfolding out using pixel_pairs [OF len i] by simp
  moreover have "px pal (low_nibble (layer ! i)) \<noteq> None \<and> px pal (high_nibble (layer ! i)) \<noteq> None"
    using ok i by simp
  ultimately show ?thesis by auto
qed

lemma render_loop_length:
  assumes r: "render_loop pal layer [] = Inr out"
  shows "length out = 8 * length layer"
proof -
  let ?f = "\<lambda>b. the (px pal (low_nibble b))" and ?g = "\<lambda>b. the (px pal (high_nibble b))"
  from r have ok: "\<forall>b\<in>set layer. px pal (low_nibble b) \<noteq> None \<and> px pal (high_nibble b) \<noteq> None"
    and out: "out = concat (map (\<lambda>b. ?f b @ ?g b) layer)"
    by (simp_all add: render_loop_Inr)
  have len: "\<forall>b\<in>set layer. length (?f b) = 4 \<and> length (?g b) = 4"
    using ok px_length by fastforce
  show ?thesis unfolding out using length_pairs [OF len] by simp
qed

lemma py_int_0: "py_int ''0'' = Inr 0"
  by (simp add: py_int_def strip_def is_space_def digit_val_def)

lemma py_int_1: "py_int ''1'' = Inr 1"
  by (simp add: py_int_def strip_def is_space_def digit_val_def)

lemma py_int_15: "py_int ''15'' = Inr 15"
  by (simp add: py_int_def strip_def is_space_def digit_val_def)

lemma gen_palette_sample:
  "gen_palette sample_document = Inr [0 \<mapsto> 0x11223344, 1 \<mapsto> 0xFF, 15 \<mapsto> 0]"
  by (simp add: gen_palette_def sample_document_def py_int_0 py_int_1 py_int_15)

lemma render_sample:
  "private_render_layer sample_document p [0x10, 0xF1] =
     Inr [0x11, 0x22, 0x33, 0x44, 0, 0, 0, 0xFF, 0, 0, 0, 0xFF, 0, 0, 0, 0]"
  by (simp add: private_render_layer_def gen_palette_sample to_bytes4_def)

lemma str_int_0_1: "str_int 0 = ''0''" "str_int 1 = ''1''"
  by (simp_all add: str_int_def str_nat.simps digit_char_def)

lemma mData_sample: "mData sample_document = Some [(''0'', [0x10, 0xF1])]"
  by (simp add: sample_document_def)

text \<open>
  C4. For every byte of a packed layer, unpacking takes the low nibble first and the high
  nibble second and writes two consecutive pixels in that order, each the 32-bit colour
  that the palette holds for the nibble: the rendering succeeds exactly when every nibble
  has a palette entry that fits in 32 bits, and then every byte of the input contributes
  exactly two RGBA pixels (eight bytes) to the output.
\<close>

theorem render_layer_two_pixels_per_byte:
  assumes gp: "gen_palette raw = Inr pal"
  shows "((\<exists>out. private_render_layer raw p layer = Inr out) \<longleftrightarrow>
            (\<forall>b\<in>set layer. \<forall>n\<in>{low_nibble b, high_nibble b}.
               \<exists>c. pal n = Some c \<and> 0 \<le> c \<and> c < 2 ^ 32)) \<and>
         (private_render_layer raw p layer = Inr out \<longrightarrow>
            length out = 8 * length layer \<and>
            (\<forall>i<length layer. \<exists>c1 c2.
               pal (low_nibble (layer ! i)) = Some c1 \<and> to_bytes4 c1 = Inr (pixel out (2 * i)) \<and>
               pal (high_nibble (layer ! i)) = Some c2 \<and>
               to_bytes4 c2 = Inr (pixel out (2 * i + 1))))"
proof -
  have eq: "private_render_layer raw p layer = render_loop pal layer []"
    using gp by (simp add: private_render_layer_def)
  have a: "(\<exists>out. render_loop pal layer [] = Inr out) \<longleftrightarrow>
            (\<forall>b\<in>set layer. \<forall>n\<in>{low_nibble b, high_nibble b}.
               \<exists>c. pal n = Some c \<and> 0 \<le> c \<and> c < 2 ^ 32)"
    by (simp add: render_loop_Inr px_Some_ex)
  have b: "length out = 8 * length layer \<and>
            (\<forall>i<length layer. \<exists>c1 c2.
               pal (low_nibble (layer ! i)) = Some c1 \<and> to_bytes4 c1 = Inr (pixel out (2 * i)) \<and>
               pal (high_nibble (layer ! i)) = Some c2 \<and>
               to_bytes4 c2 = Inr (pixel out (2 * i + 1)))"
    if r: "render_loop pal layer [] = Inr out"
    using render_loop_length [OF r] render_loop_pixels [OF r] by (simp add: px_Some_iff)
  show ?thesis using a b by (simp add: eq)
qed

theorem render_layer_two_pixels_per_byte_witness:
  "gen_palette sample_document = Inr [0 \<mapsto> 0x11223344, 1 \<mapsto> 0xFF, 15 \<mapsto> 0] \<and>
   private_render_layer sample_document Map.empty [0x10, 0xF1] =
     Inr [0x11, 0x22, 0x33, 0x44, 0, 0, 0, 0xFF, 0, 0, 0, 0xFF, 0, 0, 0, 0] \<and>
   length [0x11, 0x22, 0x33, 0x44, 0, 0, 0, 0xFF, 0, 0, 0, 0xFF, 0, 0, 0, 0 :: 8 word] =
     8 * length [0x10, 0xF1 :: 8 word] \<and>
   low_nibble 0x10 = 0 \<and> high_nibble 0x10 = 1 \<and>
   to_bytes4 0x11223344 =
     Inr (pixel [0x11, 0x22, 0x33, 0x44, 0, 0, 0, 0xFF, 0, 0, 0, 0xFF, 0, 0, 0, 0] 0) \<and>
   to_bytes4 0xFF =
     Inr (pixel [0x11, 0x22, 0x33, 0x44, 0, 0, 0, 0xFF, 0, 0, 0, 0xFF, 0, 0, 0, 0] 1)"
  using render_layer_two_pixels_per_byte [OF gen_palette_sample, of Map.empty "[0x10, 0xF1]"
      "[0x11, 0x22, 0x33, 0x44, 0, 0, 0, 0xFF, 0, 0, 0, 0xFF, 0, 0, 0, 0]"]
  by (simp add: gen_palette_sample render_sample low_nibble_def high_nibble_def pixel_def
      to_bytes4_def)

text \<open>
  C5. After palette construction index 15 maps to the colour 0, whose four bytes are all
  zero (alpha 0), whatever the document stores for index 15; every unpacked pixel whose
  nibble is 15 is fully transparent.
\<close>

theorem index_15_transparent:
  assumes gp: "gen_palette raw = Inr pal"
  shows "pal 15 = Some 0 \<and> to_bytes4 0 = Inr [0, 0, 0, 0] \<and>
         (private_render_layer raw p layer = Inr out \<longrightarrow>
            (\<forall>i<length layer.
               (low_nibble (layer ! i) = 15 \<longrightarrow> pixel out (2 * i) = [0, 0, 0, 0]) \<and>
               (high_nibble (layer ! i) = 15 \<longrightarrow> pixel out (2 * i + 1) = [0, 0, 0, 0])))"
proof -
  have p15: "pal 15 = Some 0" using gp by (rule gen_palette_15)
  have eq: "private_render_layer raw p layer = render_loop pal layer []"
    using gp by (simp add: private_render_layer_def)
  have b: "(low_nibble (layer ! i) = 15 \<longrightarrow> pixel out (2 * i) = [0, 0, 0, 0]) \<and>
           (high_nibble (layer ! i) = 15 \<longrightarrow> pixel out (2 * i + 1) = [0, 0, 0, 0])"
    if r: "render_loop pal layer [] = Inr out" and i: "i < length layer" for i
    using render_loop_pixels [OF r i] px_15 [of pal, OF p15] by auto
  have "to_bytes4 0 = Inr [0, 0, 0, 0]" by (simp add: to_bytes4_def)
  then show ?thesis using p15 b by (simp add: eq)
qed

theorem index_15_transparent_witness:
  "gen_palette sample_document = Inr [0 \<mapsto> 0x11223344, 1 \<mapsto> 0xFF, 15 \<mapsto> 0] \<and>
   map_of [(''0'', 0x11223344), (''1'', 0xFF), (''15'', 0xFFFFFFFF :: int)] ''15'' = Some 0xFFFFFFFF \<and>
   private_render_layer sample_document Map.empty [0x10, 0xF1] =
     Inr [0x11, 0x22, 0x33, 0x44, 0, 0, 0, 0xFF, 0, 0, 0, 0xFF, 0, 0, 0, 0] \<and>
   high_nibble 0xF1 = 15 \<and>
   pixel [0x11, 0x22, 0x33, 0x44, 0, 0, 0, 0xFF, 0, 0, 0, 0xFF, 0, 0, 0, 0] 3 = [0, 0, 0, 0]"
  using index_15_transparent [OF gen_palette_sample, of Map.empty "[0x10, 0xF1]"
      "[0x11, 0x22, 0x33, 0x44, 0, 0, 0, 0xFF, 0, 0, 0, 0xFF, 0, 0, 0, 0]"]
  by (simp add: gen_palette_sample render_sample high_nibble_def pixel_def)

text \<open>
  C6, as stated: unpacking fails with a size-mismatch error for every buffer whose length
  is not half the number of pixels of a tile. The empty buffer and a buffer of one byte,
  of which at most one can have that length, are both rendered.
\<close>

theorem render_layer_accepts_any_length:
  "private_render_layer \<lparr>mPalette = Some [], mData = Some []\<rparr> Map.empty [] = Inr [] \<and>
   private_render_layer \<lparr>mPalette = Some [], mData = Some []\<rparr> Map.empty [0xFF] =
     Inr [0, 0, 0, 0, 0, 0, 0, 0]"
  by (simp add: private_render_layer_def gen_palette_def to_bytes4_def)

text \<open>
  C6, amended. The renderer compares the length of the packed buffer with nothing: for a
  buffer of any length it either fails with a key, value or overflow error of the palette
  construction and lookup, or writes eight bytes (two RGBA pixels) for each input byte. It
  never raises the size-mismatch error.
\<close>

theorem render_layer_no_size_check:
  "(case private_render_layer raw p layer of
      Inl e \<Rightarrow> e = KeyError \<or> e = ValueError \<or> e = OverflowError
    | Inr out \<Rightarrow> length out = 8 * length layer) \<and>
   private_render_layer raw p layer \<noteq> Inl (InvalidLayerSizeError nm w h)"
proof -
  have a: "e = KeyError \<or> e = ValueError \<or> e = OverflowError"
    if "private_render_layer raw p layer = Inl e" for e
    using that gen_palette_error render_loop_Inl
    by (fastforce simp: private_render_layer_def split: sum.splits)
  have b: "length out = 8 * length layer"
    if "private_render_layer raw p layer = Inr out" for out
    using private_render_layer_Inr [OF that] render_loop_length by auto
  show ?thesis using a b by (cases "private_render_layer raw p layer") auto
qed

theorem render_layer_no_size_check_witness:
  "private_render_layer sample_document Map.empty [0x10] =
     Inr [0x11, 0x22, 0x33, 0x44, 0, 0, 0, 0xFF] \<and>
   length [0x11, 0x22, 0x33, 0x44, 0, 0, 0, 0xFF :: 8 word] = 8 * length [0x10 :: 8 word]"
  using render_layer_no_size_check [where raw = sample_document and p = Map.empty
      and layer = "[0x10]"]
  by (simp add: private_render_layer_def gen_palette_sample to_bytes4_def)

text \<open>
  C10. The result of \<^verbatim>\<open>_render_layer\<close> does not depend on its palette argument, which
  the function recomputes from the document; so \<^verbatim>\<open>render_layer\<close> is determined by the
  document and the layer index.
\<close>

theorem palette_argument_ignored:
  "private_render_layer raw p1 layer = private_render_layer raw p2 layer \<and>
   render_layer raw layer_i =
     (case mData raw of
        None \<Rightarrow> Inl KeyError
      | Some d \<Rightarrow>
          (case map_of d (str_int layer_i) of
             None \<Rightarrow> Inl (InvalidLayerIndexError (length d))
           | Some layer \<Rightarrow> private_render_layer raw p1 layer))"
  by (auto simp: private_render_layer_def render_layer_def split: option.splits sum.splits)

theorem palette_argument_ignored_witness:
  "private_render_layer sample_document Map.empty [0x10, 0xF1] =
     private_render_layer sample_document [0 \<mapsto> 0, 1 \<mapsto> 0] [0x10, 0xF1] \<and>
   render_layer sample_document 0 =
     Inr [0x11, 0x22, 0x33, 0x44, 0, 0, 0, 0xFF, 0, 0, 0, 0xFF, 0, 0, 0, 0] \<and>
   render_layer sample_document 1 = Inl (InvalidLayerIndexError 1)"
  using palette_argument_ignored [of sample_document Map.empty "[0x10, 0xF1]" "[0 \<mapsto> 0, 1 \<mapsto> 0]" 0]
    palette_argument_ignored [of sample_document Map.empty "[0x10, 0xF1]" "[0 \<mapsto> 0, 1 \<mapsto> 0]" 1]
  by (simp add: render_sample mData_sample str_int_0_1)

section \<open>Properties of the serialised failures\<close>

text \<open>
  C9. The claim has every error kind serialise to a dictionary with message, code, HTTP
  status and context. For the invalid layer index error no class on the resolution order
  assigns \<^verbatim>\<open>http_status\<close>, so \<^verbatim>\<open>to_dict\<close> raises; the size-mismatch error, whose
  override ends in \<^verbatim>\<open>return d\<close>, gives the dictionary.
\<close>

theorem to_dict_invalid_layer_index:
  "to_dict bpp lim (InvalidLayerIndexError n) = Inl AttributeError \<and>
   to_dict bpp lim (InvalidLayerSizeError nm w h) =
     Inr (Some [(''error'', PStr (''layer '' @ nm @ '' was not '' @ str_int w @
                   [CHR 0xC3, CHR 0x97] @ str_int h @ ''.'')),
                (''error_code'', PInt 305), (''http_status'', PInt 400),
                (''expected_width'', PInt w), (''expected_height'', PInt h),
                (''expected_byte_length'', PInt (w * h * bpp))])"
  by (simp add: base_to_dict_def)

end
